theory Spec2Isabelle
  imports Main "HOL-Library.AList" "HOL-Library.Sublist"
begin

section \<open>Python string primitives used by the parser\<close>

text \<open>
  Strings are lists of characters with code points below 256. \<open>isspace\<close> is Python's
  \<^verbatim>\<open>str.isspace\<close> on one character (the same class is used by \<^verbatim>\<open>str.strip\<close> and by the
  regular-expression escapes \<^verbatim>\<open>\s\<close> and \<^verbatim>\<open>\S\<close>): tab, line feed, vertical tab, form feed,
  carriage return, the separators 0x1C..0x1F, space, NEL (0x85) and the no-break space (0xA0).
\<close>

definition isspace :: "char \<Rightarrow> bool" where
  "isspace c =
     (c = CHR 0x09 \<or> c = CHR 0x0A \<or> c = CHR 0x0B \<or> c = CHR 0x0C \<or> c = CHR 0x0D \<or>
      c = CHR 0x1C \<or> c = CHR 0x1D \<or> c = CHR 0x1E \<or> c = CHR 0x1F \<or> c = CHR 0x20 \<or>
      c = CHR 0x85 \<or> c = CHR 0xA0)"

definition lstrip :: "string \<Rightarrow> string" where
  "lstrip s = dropWhile isspace s"

definition rstrip :: "string \<Rightarrow> string" where
  "rstrip s = rev (dropWhile isspace (rev s))"

definition strip :: "string \<Rightarrow> string" where
  "strip s = lstrip (rstrip s)"

definition startswith :: "string \<Rightarrow> string \<Rightarrow> bool" where
  "startswith s p = prefix p s"

text \<open>\<^verbatim>\<open>str.lower\<close> on code points below 256: A..Z and the Latin-1 capitals (0xC0..0xDE except
  the multiplication sign 0xD7) move up by 32.\<close>

definition lower_char :: "char \<Rightarrow> char" where
  "lower_char c =
     (let n = (of_char c :: nat) in
      if (65 \<le> n \<and> n \<le> 90) \<or> (192 \<le> n \<and> n \<le> 222 \<and> n \<noteq> 215)
      then char_of (n + 32) else c)"

definition lower :: "string \<Rightarrow> string" where
  "lower s = map lower_char s"

text \<open>\<^verbatim>\<open>sep.join(xs)\<close> with the separator \<^verbatim>\<open>"\n"\<close>.\<close>

fun join_nl :: "string list \<Rightarrow> string" where
  "join_nl [] = []"
| "join_nl [x] = x"
| "join_nl (x # y # ys) = x @ CHR 0x0A # join_nl (y # ys)"

text \<open>\<^verbatim>\<open>s.find(p, start)\<close>: the lowest index \<open>i \<ge> start\<close> at which \<open>p\<close> occurs in \<open>s\<close>, or
  \<open>-1\<close>. \<open>find_at p s i\<close> searches the suffix \<open>s\<close> that begins at index \<open>i\<close>.\<close>

fun find_at :: "string \<Rightarrow> string \<Rightarrow> nat \<Rightarrow> nat option" where
  "find_at p [] i = (if p = [] then Some i else None)"
| "find_at p (c # cs) i = (if prefix p (c # cs) then Some i else find_at p cs (Suc i))"

definition str_find :: "string \<Rightarrow> string \<Rightarrow> int \<Rightarrow> int" where
  "str_find s p start =
     (let b = (if start < 0 then nat (max 0 (int (length s) + start)) else nat start) in
      if length s < b then - 1
      else (case find_at p (drop b s) b of None \<Rightarrow> - 1 | Some i \<Rightarrow> int i))"

text \<open>\<^verbatim>\<open>line[:comment_start]\<close>, where \<^verbatim>\<open>comment_start\<close> is an index or \<^verbatim>\<open>None\<close>.\<close>

fun slice_to :: "string \<Rightarrow> int option \<Rightarrow> string" where
  "slice_to line None = line"
| "slice_to line (Some i) =
     (if i < 0 then take (nat (int (length line) + i)) line else take (nat i) line)"

definition sys_maxsize :: int where
  "sys_maxsize = 9223372036854775807"

text \<open>\<^verbatim>\<open>dict.fromkeys(keys, v)\<close>: insertion-ordered, a repeated key keeps its first position.\<close>

definition dict_fromkeys :: "'k list \<Rightarrow> 'v \<Rightarrow> ('k \<times> 'v) list" where
  "dict_fromkeys ks v = fold (\<lambda>k d. AList.update k v d) ks []"

definition has_key :: "('k \<times> 'v) list \<Rightarrow> 'k \<Rightarrow> bool" where
  "has_key d k = (map_of d k \<noteq> None)"

section \<open>The regular expressions inherited from \<^verbatim>\<open>configparser.RawConfigParser\<close>\<close>

text \<open>
  The class under verification inherits its patterns from the standard library:
  \<^verbatim>\<open>NONSPACECRE = \S\<close>, \<^verbatim>\<open>SECTCRE = \[(?P<header>.+)\]\<close> and the option pattern \<^verbatim>\<open>_optcre\<close>,
  built from the delimiters and from \<^verbatim>\<open>allow_no_value\<close>. They are modelled by
  the backtracking search of the matcher: \<^verbatim>\<open>.\<close> is any character but line feed, a greedy
  repetition tries its longest candidate first, the lazy one its shortest, and \<^verbatim>\<open>$\<close> holds at
  the end of the text or just before a final line feed.
\<close>

definition NONSPACECRE_search :: "string \<Rightarrow> nat option" where
  "NONSPACECRE_search line =
     (let n = length (takeWhile isspace line) in if n < length line then Some n else None)"

fun try_first :: "('a \<Rightarrow> 'b option) \<Rightarrow> 'a list \<Rightarrow> 'b option" where
  "try_first f [] = None"
| "try_first f (x # xs) = (case f x of Some r \<Rightarrow> Some r | None \<Rightarrow> try_first f xs)"

definition greedy :: "nat \<Rightarrow> nat list" where
  "greedy n = rev [0..<Suc n]"

definition lazy :: "nat \<Rightarrow> nat list" where
  "lazy n = [0..<Suc n]"

definition dot_run :: "string \<Rightarrow> nat" where
  "dot_run s = length (takeWhile (\<lambda>c. c \<noteq> CHR 0x0A) s)"

definition space_run :: "string \<Rightarrow> nat" where
  "space_run s = length (takeWhile isspace s)"

definition at_end :: "string \<Rightarrow> bool" where
  "at_end s = (s = [] \<or> s = [CHR 0x0A])"

text \<open>\<^verbatim>\<open>SECTCRE.match(value)\<close>, returning the group \<^verbatim>\<open>header\<close>.\<close>

definition SECTCRE_match :: "string \<Rightarrow> string option" where
  "SECTCRE_match v =
     (case v of
        [] \<Rightarrow> None
      | c # rest \<Rightarrow>
          if c \<noteq> CHR ''['' then None
          else try_first
                 (\<lambda>n. if 0 < n \<and> n < length rest \<and> rest ! n = CHR '']''
                      then Some (take n rest) else None)
                 (greedy (dot_run rest)))"

text \<open>\<^verbatim>\<open>\s*(?P<value>.*)$\<close> on the text that follows a delimiter.\<close>

definition value_group :: "string \<Rightarrow> string option" where
  "value_group s =
     try_first
       (\<lambda>m. let r = drop m s in
            try_first (\<lambda>n. if at_end (drop n r) then Some (take n r) else None)
              (greedy (dot_run r)))
       (greedy (space_run s))"

text \<open>\<^verbatim>\<open>(?P<vi>delim)\s*(?P<value>.*)$\<close> at one position, the delimiters tried in turn.\<close>

definition vi_group :: "string list \<Rightarrow> string \<Rightarrow> string option" where
  "vi_group delims s =
     try_first (\<lambda>d. if prefix d s then value_group (drop (length d) s) else None) delims"

text \<open>\<^verbatim>\<open>(?:(?P<vi>delim)\s*(?P<value>.*))?$\<close> at one position: the optional group first, then
  the empty alternative. The result is the group \<^verbatim>\<open>value\<close> (\<open>None\<close> when the optional group
  took no part in the match).\<close>

definition delim_group :: "string list \<Rightarrow> string \<Rightarrow> string option option" where
  "delim_group delims s =
     (case vi_group delims s of
        Some v \<Rightarrow> Some (Some v)
      | None \<Rightarrow> if at_end s then Some None else None)"

text \<open>\<^verbatim>\<open>_optcre.match(value)\<close> for \<^verbatim>\<open>allow_no_value=True\<close>, that is the pattern
  \<^verbatim>\<open>(?P<option>.*?)\s*(?:(?P<vi>delim)\s*(?P<value>.*))?$\<close>, returning the groups \<^verbatim>\<open>option\<close>
  and \<^verbatim>\<open>value\<close>.\<close>

definition OPT_NV_match :: "string list \<Rightarrow> string \<Rightarrow> (string \<times> string option) option" where
  "OPT_NV_match delims v =
     try_first
       (\<lambda>k. let r = drop k v in
            (case try_first (\<lambda>m. delim_group delims (drop m r)) (greedy (space_run r)) of
               Some val \<Rightarrow> Some (take k v, val)
             | None \<Rightarrow> None))
       (lazy (dot_run v))"

text \<open>\<^verbatim>\<open>_optcre.match(value)\<close> for \<^verbatim>\<open>allow_no_value=False\<close>, that is the pattern
  \<^verbatim>\<open>(?P<option>.*?)\s*(?P<vi>delim)\s*(?P<value>.*)$\<close>: the delimiter is required.\<close>

definition OPT_match :: "string list \<Rightarrow> string \<Rightarrow> (string \<times> string option) option" where
  "OPT_match delims v =
     try_first
       (\<lambda>k. let r = drop k v in
            (case try_first (\<lambda>m. vi_group delims (drop m r)) (greedy (space_run r)) of
               Some val \<Rightarrow> Some (take k v, Some val)
             | None \<Rightarrow> None))
       (lazy (dot_run v))"

section \<open>Parser configuration and state\<close>

text \<open>The attributes of the parser object that \<^verbatim>\<open>_read\<close> consults.\<close>

record config =
  inline_comment_prefixes :: "string list"
  comment_prefixes :: "string list"
  empty_lines_in_values :: bool
  strict :: bool
  default_section :: string
  optionxform :: "string \<Rightarrow> string"
  SECTCRE :: "string \<Rightarrow> string option"
  optcre :: "string \<Rightarrow> (string \<times> string option) option"

text \<open>
  \<^verbatim>\<open>customConfigParser.__init__\<close> calls
  \<^verbatim>\<open>super().__init__(allow_no_value=True, delimiters=("=",), comment_prefixes=(), strict=False)\<close>;
  every other attribute keeps the library's default (no inline comment prefixes, empty lines
  allowed in values, default section \<^verbatim>\<open>DEFAULT\<close>, option names lower-cased).
\<close>

definition customConfigParser :: config where
  "customConfigParser =
     \<lparr> inline_comment_prefixes = [],
       comment_prefixes = [],
       empty_lines_in_values = True,
       strict = False,
       default_section = ''DEFAULT'',
       optionxform = lower,
       SECTCRE = SECTCRE_match,
       optcre = OPT_NV_match [''=''] \<rparr>"

text \<open>An option's stored value: \<^verbatim>\<open>None\<close>, a list of physical lines, or (after joining) a
  string.\<close>

datatype optval = NoValue | Lines "string list" | Str string

type_synonym optdict = "(string \<times> optval) list"

text \<open>The parser object's dictionaries \<^verbatim>\<open>_sections\<close> and \<^verbatim>\<open>_defaults\<close> (the section proxies,
  which are views keyed by the same names, are left out).\<close>

record parser =
  sections :: "(string \<times> optdict) list"
  defaults :: optdict

definition fresh :: parser where
  "fresh = \<lparr> sections = [], defaults = [] \<rparr>"

text \<open>\<^verbatim>\<open>cursect\<close> is a reference to one of the parser's dictionaries.\<close>

datatype sectref = Defaults | Section string

datatype elem = ESect string | EOpt "string option" string

datatype exn =
    DuplicateSectionError string nat
  | DuplicateOptionError "string option" string nat
  | AttributeError
  | KeyError
  | ParsingError "(nat \<times> string) list"

text \<open>The local variables of \<^verbatim>\<open>_read\<close> together with the parser object.\<close>

record lstate =
  self :: parser
  elements_added :: "elem set"
  cursect :: "sectref option"
  sectname :: "string option"
  optname :: "string option"
  indent_level :: int
  e :: "(nat \<times> string) list option"

definition init :: "parser \<Rightarrow> lstate" where
  "init p =
     \<lparr> self = p, elements_added = {}, cursect = None, sectname = None, optname = None,
       indent_level = 0, e = None \<rparr>"

definition deref :: "parser \<Rightarrow> sectref \<Rightarrow> optdict" where
  "deref p r =
     (case r of
        Defaults \<Rightarrow> defaults p
      | Section n \<Rightarrow> (case map_of (sections p) n of Some d \<Rightarrow> d | None \<Rightarrow> []))"

definition setitem :: "sectref \<Rightarrow> string \<Rightarrow> optval \<Rightarrow> parser \<Rightarrow> parser" where
  "setitem r k v p =
     (case r of
        Defaults \<Rightarrow> p\<lparr>defaults := AList.update k v (defaults p)\<rparr>
      | Section n \<Rightarrow> p\<lparr>sections := AList.update n (AList.update k v (deref p r)) (sections p)\<rparr>)"

text \<open>\<^verbatim>\<open>_handle_error\<close>: create the \<^verbatim>\<open>ParsingError\<close> on first use and append the line (the
  library stores the line's \<^verbatim>\<open>repr\<close>; the raw text is kept here).\<close>

definition handle_error :: "(nat \<times> string) list option \<Rightarrow> nat \<Rightarrow> string \<Rightarrow> (nat \<times> string) list option" where
  "handle_error exc lineno line =
     (case exc of None \<Rightarrow> Some [(lineno, line)] | Some errs \<Rightarrow> Some (errs @ [(lineno, line)]))"

section \<open>Comment stripping\<close>

text \<open>One pass of the loop \<^verbatim>\<open>for prefix, index in inline_prefixes.items()\<close>, threading
  \<^verbatim>\<open>next_prefixes\<close> and \<^verbatim>\<open>comment_start\<close>.\<close>

fun scan_prefixes ::
  "string \<Rightarrow> (string \<times> int) list \<Rightarrow> (string \<times> int) list \<times> int \<Rightarrow> (string \<times> int) list \<times> int" where
  "scan_prefixes line [] acc = acc"
| "scan_prefixes line ((pfx, index) # rest) (next_prefixes, comment_start) =
     (let line_index = str_find line pfx (index + 1) in
      if line_index = - 1 then scan_prefixes line rest (next_prefixes, comment_start)
      else scan_prefixes line rest
             (AList.update pfx line_index next_prefixes,
              if line_index = 0 \<or> (line_index > 0 \<and> isspace (line ! nat (line_index - 1)))
              then min comment_start line_index else comment_start))"

text \<open>The measure that decreases with every round of the \<^verbatim>\<open>while\<close> loop: each surviving
  prefix has moved its index to the right, each other prefix has been dropped.\<close>

definition room :: "string \<Rightarrow> (string \<times> int) list \<Rightarrow> nat" where
  "room line d = sum_list (map (\<lambda>(p, i). Suc (nat (int (length line) + 1 - i))) d)"

definition room0 :: "string \<Rightarrow> (string \<times> int) list \<Rightarrow> nat" where
  "room0 line d = sum_list (map (\<lambda>(p, i). nat (int (length line) + 1 - i)) d)"

lemma find_at_bounds: "find_at p s i = Some j \<Longrightarrow> i \<le> j \<and> j \<le> i + length s"
  by (induction s arbitrary: i) (fastforce split: if_splits)+

lemma str_find_bounds:
  "str_find s p start \<noteq> - 1 \<Longrightarrow> start \<le> str_find s p start \<and> str_find s p start \<le> int (length s)"
  unfolding str_find_def Let_def
  by (auto split: if_splits option.splits dest!: find_at_bounds)

lemma room_update: "room line (AList.update k v d) \<le> room line d + Suc (nat (int (length line) + 1 - v))"
  by (induction d) (auto simp: room_def)

lemma room_scan:
  "room line (fst (scan_prefixes line d (acc, cs))) \<le> room line acc + room0 line d"
proof (induction d arbitrary: acc cs)
  case Nil
  then show ?case by (simp add: room0_def)
next
  case (Cons a d)
  obtain p i where a: "a = (p, i)" by (cases a)
  show ?case
  proof (cases "str_find line p (i + 1) = - 1")
    case True
    then show ?thesis
      using Cons.IH [of acc cs] by (simp add: a room0_def)
  next
    case False
    let ?j = "str_find line p (i + 1)"
    let ?cs = "if ?j = 0 \<or> (?j > 0 \<and> isspace (line ! nat (?j - 1))) then min cs ?j else cs"
    from False have b: "i + 1 \<le> ?j" "?j \<le> int (length line)"
      using str_find_bounds [of line p "i + 1"] by auto
    have "room line (fst (scan_prefixes line d (AList.update p ?j acc, ?cs)))
            \<le> room line (AList.update p ?j acc) + room0 line d"
      by (rule Cons.IH)
    also have "\<dots> \<le> room line acc + Suc (nat (int (length line) + 1 - ?j)) + room0 line d"
      using room_update [of line p ?j acc] by simp
    also have "\<dots> \<le> room line acc + nat (int (length line) + 1 - i) + room0 line d"
      using b by simp
    finally show ?thesis
      using False by (simp add: a room0_def Let_def)
  qed
qed

lemma room0_less: "d \<noteq> [] \<Longrightarrow> room0 line d < room line d"
  unfolding room0_def room_def
proof (induction d)
  case Nil
  then show ?case by simp
next
  case (Cons a d)
  then show ?case by (cases d) (auto split: prod.splits)
qed

text \<open>The loop \<^verbatim>\<open>while comment_start == sys.maxsize and inline_prefixes\<close>.\<close>

function inline_loop :: "string \<Rightarrow> (string \<times> int) list \<Rightarrow> int \<Rightarrow> int" where
  "inline_loop line inline_prefixes comment_start =
     (if comment_start = sys_maxsize \<and> inline_prefixes \<noteq> [] then
        (case scan_prefixes line inline_prefixes ([], comment_start) of
           (next_prefixes, cs) \<Rightarrow> inline_loop line next_prefixes cs)
      else comment_start)"
  by pat_completeness auto
termination
proof (relation "measure (\<lambda>(line, d, cs). room line d)", goal_cases)
  case 1
  show ?case by simp
next
  case (2 line d cs0 np c)
  have "room line np = room line (fst (scan_prefixes line d ([], cs0)))"
    using 2 by (metis fst_conv)
  also have "\<dots> \<le> room line [] + room0 line d"
    by (rule room_scan)
  also have "\<dots> < room line d"
    using 2 room0_less [of d line] by (simp add: room_def)
  finally show ?case by simp
qed

declare inline_loop.simps [simp del]

text \<open>Lines 48 to 67 of \<^verbatim>\<open>_read\<close>: the column at which the comment starts, or \<open>None\<close>.\<close>

definition comment_start_of :: "config \<Rightarrow> string \<Rightarrow> int option" where
  "comment_start_of cfg line =
     (let cs = inline_loop line (dict_fromkeys (inline_comment_prefixes cfg) (- 1)) sys_maxsize;
          cs = (if list_ex (\<lambda>pfx. startswith (strip line) pfx) (comment_prefixes cfg) then 0 else cs)
      in if cs = sys_maxsize then None else Some cs)"

section \<open>The line loop of \<^verbatim>\<open>_read\<close>\<close>

definition fake_header :: string where
  "fake_header = ''TotallyFakeSectionHeader''"

text \<open>The \<^verbatim>\<open>else\<close> branch at line 84, entered with \<^verbatim>\<open>indent_level\<close> already updated: a section
  header, the missing-header recovery, or an option line.\<close>

definition header_or_option :: "config \<Rightarrow> nat \<Rightarrow> string \<Rightarrow> string \<Rightarrow> lstate \<Rightarrow> exn + lstate" where
  "header_or_option cfg lineno line val st =
     (case SECTCRE cfg val of
        Some name \<Rightarrow>
          if has_key (sections (self st)) name then
            if strict cfg \<and> ESect name \<in> elements_added st
            then Inl (DuplicateSectionError name lineno)
            else Inr (st\<lparr>sectname := Some name, cursect := Some (Section name),
                        elements_added := insert (ESect name) (elements_added st),
                        optname := None\<rparr>)
          else if name = default_section cfg then
            Inr (st\<lparr>sectname := Some name, cursect := Some Defaults, optname := None\<rparr>)
          else
            Inr (st\<lparr>sectname := Some name, cursect := Some (Section name),
                    self := (self st)\<lparr>sections := AList.update name [] (sections (self st))\<rparr>,
                    elements_added := insert (ESect name) (elements_added st),
                    optname := None\<rparr>)
      | None \<Rightarrow>
          (case cursect st of
             None \<Rightarrow>
               Inr (st\<lparr>cursect := Some (Section fake_header), sectname := Some fake_header,
                       self := (self st)\<lparr>sections := AList.update fake_header [] (sections (self st))\<rparr>,
                       elements_added := insert (ESect fake_header) (elements_added st),
                       optname := None\<rparr>)
           | Some cur \<Rightarrow>
               (case optcre cfg val of
                  Some (opt, optval) \<Rightarrow>
                    (let err = (if opt = [] then handle_error (e st) lineno line else e st);
                         name = optionxform cfg (rstrip opt)
                     in if strict cfg \<and> EOpt (sectname st) name \<in> elements_added st
                        then Inl (DuplicateOptionError (sectname st) name lineno)
                        else
                          (let st' = st\<lparr>e := err, optname := Some name,
                                        elements_added := insert (EOpt (sectname st) name) (elements_added st)\<rparr>
                           in case optval of
                                Some v \<Rightarrow>
                                  if \<not> has_key (deref (self st) cur) name
                                  then Inr (st'\<lparr>self := setitem cur name (Lines [strip v]) (self st)\<rparr>)
                                  else Inr st'
                              | None \<Rightarrow>
                                  if \<not> has_key (deref (self st) cur) name
                                  then Inr (st'\<lparr>self := setitem cur name NoValue (self st)\<rparr>)
                                  else Inr st'))
                | None \<Rightarrow> Inr (st\<lparr>e := handle_error (e st) lineno line\<rparr>))))"

text \<open>\<^verbatim>\<open>cursect[optname].append(x)\<close>: only a list has \<^verbatim>\<open>append\<close>.\<close>

definition append_line :: "sectref \<Rightarrow> string \<Rightarrow> string \<Rightarrow> lstate \<Rightarrow> exn + lstate" where
  "append_line cur name x st =
     (case map_of (deref (self st) cur) name of
        None \<Rightarrow> Inl KeyError
      | Some NoValue \<Rightarrow> Inl AttributeError
      | Some (Str s) \<Rightarrow> Inl AttributeError
      | Some (Lines ls) \<Rightarrow> Inr (st\<lparr>self := setitem cur name (Lines (ls @ [x])) (self st)\<rparr>))"

text \<open>The blank-line branch at lines 69 to 77.\<close>

definition blank_line :: "config \<Rightarrow> int option \<Rightarrow> lstate \<Rightarrow> exn + lstate" where
  "blank_line cfg cs st =
     (if empty_lines_in_values cfg then
        (case (cs, cursect st, optname st) of
           (None, Some cur, Some name) \<Rightarrow>
             if name \<noteq> [] then
               (case map_of (deref (self st) cur) name of
                  None \<Rightarrow> Inl KeyError
                | Some NoValue \<Rightarrow> Inr st
                | Some v \<Rightarrow> append_line cur name [] st)
             else Inr st
         | _ \<Rightarrow> Inr st)
      else Inr (st\<lparr>indent_level := sys_maxsize\<rparr>))"

text \<open>\<^verbatim>\<open>value = line[:comment_start].strip()\<close> and
  \<^verbatim>\<open>cur_indent_level = first_nonspace.start() if first_nonspace else 0\<close>.\<close>

definition line_value :: "config \<Rightarrow> string \<Rightarrow> string" where
  "line_value cfg line = strip (slice_to line (comment_start_of cfg line))"

definition cur_indent_level :: "string \<Rightarrow> int" where
  "cur_indent_level line = (case NONSPACECRE_search line of Some i \<Rightarrow> int i | None \<Rightarrow> 0)"

text \<open>One iteration of \<^verbatim>\<open>for lineno, line in enumerate(fp, start=1)\<close>.\<close>

definition read_line :: "config \<Rightarrow> nat \<Rightarrow> string \<Rightarrow> lstate \<Rightarrow> exn + lstate" where
  "read_line cfg lineno line st =
     (if line_value cfg line = [] then blank_line cfg (comment_start_of cfg line) st
      else
        (case (cursect st, optname st) of
           (Some cur, Some name) \<Rightarrow>
             if name \<noteq> [] \<and> cur_indent_level line > indent_level st
             then append_line cur name (line_value cfg line) st
             else header_or_option cfg lineno line (line_value cfg line)
                    (st\<lparr>indent_level := cur_indent_level line\<rparr>)
         | _ \<Rightarrow> header_or_option cfg lineno line (line_value cfg line)
                  (st\<lparr>indent_level := cur_indent_level line\<rparr>)))"

text \<open>The whole loop. An exception leaves the loop at once; the state returned with it is
  the one the parser object is left in.\<close>

fun read_lines :: "config \<Rightarrow> nat \<Rightarrow> string list \<Rightarrow> lstate \<Rightarrow> exn option \<times> lstate" where
  "read_lines cfg lineno [] st = (None, st)"
| "read_lines cfg lineno (line # fp) st =
     (case read_line cfg lineno line st of
        Inl x \<Rightarrow> (Some x, st)
      | Inr st' \<Rightarrow> read_lines cfg (Suc lineno) fp st')"

text \<open>\<^verbatim>\<open>_join_multiline_values\<close> of the library (with the identity interpolation of
  \<^verbatim>\<open>RawConfigParser\<close>): every list becomes \<^verbatim>\<open>"\n".join(val).rstrip()\<close>.\<close>

definition join_value :: "optval \<Rightarrow> optval" where
  "join_value v = (case v of Lines ls \<Rightarrow> Str (rstrip (join_nl ls)) | _ \<Rightarrow> v)"

definition join_options :: "optdict \<Rightarrow> optdict" where
  "join_options d = map (\<lambda>(name, v). (name, join_value v)) d"

definition join_multiline_values :: "parser \<Rightarrow> parser" where
  "join_multiline_values p =
     p\<lparr>defaults := join_options (defaults p),
       sections := map (\<lambda>(name, d). (name, join_options d)) (sections p)\<rparr>"

text \<open>\<^verbatim>\<open>_read(fp, fpname)\<close> on a parser object \<open>p\<close>: the exception that reaches the caller, if
  any, and the parser object afterwards. \<open>fp\<close> is the list of physical lines the stream
  yields, each with its line terminator.\<close>

definition read :: "config \<Rightarrow> parser \<Rightarrow> string list \<Rightarrow> exn option \<times> parser" where
  "read cfg p fp =
     (case read_lines cfg 1 fp (init p) of
        (Some x, st) \<Rightarrow> (Some x, self st)
      | (None, st) \<Rightarrow>
          (let p' = join_multiline_values (self st) in
           case e st of Some errs \<Rightarrow> (Some (ParsingError errs), p') | None \<Rightarrow> (None, p')))"

text \<open>A physical line of a text stream: its text and the line feed that ends it.\<close>

definition ln :: "string \<Rightarrow> string" where
  "ln s = s @ [CHR 0x0A]"

section \<open>Vocabulary for the properties\<close>

text \<open>The test at line 81, \<^verbatim>\<open>cursect is not None and optname and cur_indent_level > indent_level\<close>:
  the line continues the open option.\<close>

definition continuation :: "lstate \<Rightarrow> string \<Rightarrow> bool" where
  "continuation st line =
     (cursect st \<noteq> None \<and> (case optname st of None \<Rightarrow> False | Some name \<Rightarrow> name \<noteq> []) \<and>
      indent_level st < cur_indent_level line)"

text \<open>The dictionary a section name stands for, as the header branch resolves it: the section
  of that name if there is one, else the defaults if it is the default section's name.\<close>

definition dict_of :: "config \<Rightarrow> parser \<Rightarrow> string \<Rightarrow> optdict" where
  "dict_of cfg p s =
     (if has_key (sections p) s then deref p (Section s)
      else if s = default_section cfg then defaults p else [])"

definition ref_of :: "parser \<Rightarrow> string \<Rightarrow> sectref" where
  "ref_of p s = (if has_key (sections p) s then Section s else Defaults)"

text \<open>The invariant of the scan: every (section, option) pair recorded in
  \<^verbatim>\<open>elements_added\<close> is stored in that section's dictionary, no pair is recorded before a
  section is open, and \<^verbatim>\<open>cursect\<close> is the dictionary that \<^verbatim>\<open>sectname\<close> stands for.\<close>

definition seen_ok ::
  "config \<Rightarrow> parser \<Rightarrow> elem set \<Rightarrow> sectref option \<Rightarrow> string option \<Rightarrow> bool" where
  "seen_ok cfg p ea cur sn =
     ((\<forall>x name. EOpt x name \<in> ea \<longrightarrow> (\<exists>s. x = Some s \<and> has_key (dict_of cfg p s) name)) \<and>
      (case cur of
         None \<Rightarrow> (\<forall>x name. EOpt x name \<notin> ea)
       | Some r \<Rightarrow>
           (\<exists>s. sn = Some s \<and> r = ref_of p s \<and> (has_key (sections p) s \<or> s = default_section cfg))))"

definition seen_inv :: "config \<Rightarrow> lstate \<Rightarrow> bool" where
  "seen_inv cfg st = seen_ok cfg (self st) (elements_added st) (cursect st) (sectname st)"






section \<open>Lemmas about one step of the scan\<close>

lemma deref_setitem: "map_of (deref (setitem cur name v p) cur) name = Some v"
  by (cases cur) (auto simp: deref_def setitem_def update_conv')

lemma read_line_continuation:
  assumes "line_value cfg line \<noteq> []" "cursect st = Some cur" "optname st = Some name"
    "name \<noteq> []" "indent_level st < cur_indent_level line"
  shows "read_line cfg lineno line st = append_line cur name (line_value cfg line) st"
  using assms by (simp add: read_line_def)

lemma continuation_appends:
  assumes "line_value cfg line \<noteq> []" "cursect st = Some cur" "optname st = Some name"
    "name \<noteq> []" "indent_level st < cur_indent_level line"
    "map_of (deref (self st) cur) name = Some (Lines ls)"
  shows "read_line cfg lineno line st =
           Inr (st\<lparr>self := setitem cur name (Lines (ls @ [line_value cfg line])) (self st)\<rparr>)"
  using assms by (simp add: read_line_continuation append_line_def)

lemma read_line_new_entry:
  assumes "line_value cfg line \<noteq> []"
    and "cursect st = None \<or> optname st = None \<or> optname st = Some [] \<or> cur_indent_level line \<le> indent_level st"
  shows "read_line cfg lineno line st =
    header_or_option cfg lineno line (line_value cfg line) (st\<lparr>indent_level := cur_indent_level line\<rparr>)"
  using assms by (auto simp: read_line_def split: option.splits)

lemma blank_line_changes:
  assumes "blank_line cfg cs st = Inr st'" "self st' \<noteq> self st"
  shows "empty_lines_in_values cfg \<and> cs = None \<and>
     (\<exists>cur name ls. cursect st = Some cur \<and> optname st = Some name \<and> name \<noteq> [] \<and>
        map_of (deref (self st) cur) name = Some (Lines ls) \<and>
        st' = st\<lparr>self := setitem cur name (Lines (ls @ [[]])) (self st)\<rparr>)"
  using assms
  by (auto simp: blank_line_def append_line_def split: if_splits option.splits optval.splits)

lemma dup_option:
  assumes "\<not> strict cfg" "SECTCRE cfg val = None" "cursect st = Some cur"
    "optcre cfg val = Some (opt, optval)"
    "has_key (deref (self st) cur) (optionxform cfg (rstrip opt))"
  shows "header_or_option cfg lineno line val st =
     Inr (st\<lparr>e := (if opt = [] then handle_error (e st) lineno line else e st),
            optname := Some (optionxform cfg (rstrip opt)),
            elements_added := insert (EOpt (sectname st) (optionxform cfg (rstrip opt))) (elements_added st)\<rparr>)"
  using assms by (auto simp: header_or_option_def Let_def split: option.splits)

lemma recovery:
  assumes "SECTCRE cfg val = None" "cursect st = None"
  shows "header_or_option cfg lineno line val st =
     Inr (st\<lparr>cursect := Some (Section fake_header), sectname := Some fake_header,
             self := (self st)\<lparr>sections := AList.update fake_header [] (sections (self st))\<rparr>,
             elements_added := insert (ESect fake_header) (elements_added st),
             optname := None\<rparr>)"
  using assms by (simp add: header_or_option_def)


section \<open>The invariant is kept by the scan\<close>

lemma has_key_update: "has_key (AList.update k v al) k' = (k' = k \<or> has_key al k')"
  by (simp add: has_key_def update_conv')

lemma has_key_Nil: "\<not> has_key [] k"
  by (simp add: has_key_def)

lemma seen_ok_existing:
  assumes "seen_ok cfg p ea cur sn" "has_key (sections p) name"
  shows "seen_ok cfg p (insert (ESect name) ea) (Some (Section name)) (Some name)"
  using assms by (auto simp: seen_ok_def ref_of_def)

lemma seen_ok_default:
  assumes "seen_ok cfg p ea cur sn" "\<not> has_key (sections p) (default_section cfg)"
  shows "seen_ok cfg p ea (Some Defaults) (Some (default_section cfg))"
  using assms by (auto simp: seen_ok_def ref_of_def)

lemma dict_of_new_section:
  assumes "\<not> has_key (sections p) name" "name \<noteq> default_section cfg \<or> cur = None"
    "seen_ok cfg p ea cur sn" "EOpt x n \<in> ea"
  shows "\<exists>s. x = Some s \<and> has_key (dict_of cfg (p\<lparr>sections := AList.update name [] (sections p)\<rparr>) s) n"
proof -
  from assms obtain s where s: "x = Some s" "has_key (dict_of cfg p s) n"
    by (auto simp: seen_ok_def)
  have "s \<noteq> name"
    using s assms(1,2,3,4) by (auto simp: dict_of_def has_key_Nil seen_ok_def split: if_splits)
  then have "dict_of cfg (p\<lparr>sections := AList.update name [] (sections p)\<rparr>) s = dict_of cfg p s"
    by (simp add: dict_of_def has_key_update deref_def update_conv')
  with s show ?thesis by simp
qed

lemma seen_ok_new:
  assumes "seen_ok cfg p ea cur sn" "\<not> has_key (sections p) name" "name \<noteq> default_section cfg"
  shows "seen_ok cfg (p\<lparr>sections := AList.update name [] (sections p)\<rparr>)
           (insert (ESect name) ea) (Some (Section name)) (Some name)"
  using dict_of_new_section [OF assms(2) disjI1 [OF assms(3)] assms(1)]
  by (auto simp: seen_ok_def ref_of_def has_key_update)

lemma seen_ok_fake:
  assumes "seen_ok cfg p ea None sn"
  shows "seen_ok cfg (p\<lparr>sections := AList.update name [] (sections p)\<rparr>)
           (insert (ESect name) ea) (Some (Section name)) (Some name)"
  using assms by (auto simp: seen_ok_def ref_of_def has_key_update)

lemma sections_setitem_key:
  "has_key (sections (setitem (ref_of p s) k v p)) s' = has_key (sections p) s'"
  by (simp add: setitem_def ref_of_def has_key_update) blast

lemma ref_of_setitem: "ref_of (setitem (ref_of p s) k v p) s' = ref_of p s'"
  by (simp add: ref_of_def [where s = s'] sections_setitem_key)

lemma dict_of_setitem:
  "has_key (sections p) s \<or> s = default_section cfg \<Longrightarrow>
   has_key (dict_of cfg (setitem (ref_of p s) k v p) s') n =
     ((s' = s \<and> n = k) \<or> has_key (dict_of cfg p s') n)"
  by (auto simp: setitem_def ref_of_def dict_of_def deref_def has_key_def update_conv' split: option.splits)

lemma deref_ref_of:
  "has_key (sections p) s \<or> s = default_section cfg \<Longrightarrow> deref p (ref_of p s) = dict_of cfg p s"
  by (auto simp: ref_of_def dict_of_def deref_def)

lemma seen_ok_setitem:
  assumes "seen_ok cfg p ea (Some cur) sn"
  shows "seen_ok cfg (setitem cur k v p) (insert (EOpt sn k) ea) (Some cur) sn"
proof -
  from assms obtain s where s: "sn = Some s" "cur = ref_of p s"
    "has_key (sections p) s \<or> s = default_section cfg"
    by (auto simp: seen_ok_def)
  have seen: "\<And>x name. EOpt x name \<in> ea \<Longrightarrow> \<exists>s. x = Some s \<and> has_key (dict_of cfg p s) name"
    using assms by (simp add: seen_ok_def)
  have "\<exists>s'. x = Some s' \<and> has_key (dict_of cfg (setitem cur k v p) s') name"
    if "EOpt x name \<in> insert (EOpt sn k) ea" for x name
  proof (cases "EOpt x name = EOpt sn k")
    case True
    then show ?thesis using s dict_of_setitem [of p s cfg k v s k] by auto
  next
    case False
    with that have "EOpt x name \<in> ea" by auto
    from seen [OF this] show ?thesis
      using s dict_of_setitem [of p s cfg k v] by auto
  qed
  then show ?thesis
    using s unfolding seen_ok_def by (simp add: ref_of_setitem sections_setitem_key)
qed

lemma seen_ok_weaken:
  assumes "seen_ok cfg p (insert x ea) cur sn"
  shows "seen_ok cfg p ea cur sn"
  using assms by (auto simp: seen_ok_def split: option.splits)

lemma seen_ok_dup:
  assumes "seen_ok cfg p ea (Some cur) sn" "has_key (deref p cur) k"
  shows "seen_ok cfg p (insert (EOpt sn k) ea) (Some cur) sn"
  using assms deref_ref_of [of p _ cfg] by (auto simp: seen_ok_def)

lemma seen_inv_init: "seen_inv cfg (init p)"
  by (simp add: seen_inv_def seen_ok_def init_def)

lemma seen_inv_append:
  assumes "seen_inv cfg st" "cursect st = Some cur" "append_line cur name x st = Inr st'"
  shows "seen_inv cfg st'"
  using assms seen_ok_weaken [OF seen_ok_setitem, of cfg "self st" "elements_added st" cur "sectname st"]
  by (auto simp: append_line_def seen_inv_def split: option.splits optval.splits)

lemma seen_inv_blank:
  assumes "seen_inv cfg st" "blank_line cfg cs st = Inr st'"
  shows "seen_inv cfg st'"
  using assms seen_inv_append [of cfg st]
  by (auto simp: blank_line_def seen_inv_def split: if_splits option.splits optval.splits)


lemma seen_inv_header:
  assumes inv: "seen_inv cfg st" and r: "header_or_option cfg lineno line val st = Inr st'"
  shows "seen_inv cfg st'"
proof (cases "SECTCRE cfg val")
  case (Some name)
  show ?thesis
  proof (cases "has_key (sections (self st)) name")
    case True
    with Some r have "st' = st\<lparr>sectname := Some name, cursect := Some (Section name),
        elements_added := insert (ESect name) (elements_added st), optname := None\<rparr>"
      by (simp add: header_or_option_def split: if_splits)
    then show ?thesis
      using inv True by (simp add: seen_inv_def seen_ok_existing)
  next
    case False
    show ?thesis
    proof (cases "name = default_section cfg")
      case True
      with Some False r have "st' = st\<lparr>sectname := Some name, cursect := Some Defaults, optname := None\<rparr>"
        by (simp add: header_or_option_def)
      then show ?thesis
        using inv True False seen_ok_default [of cfg "self st" "elements_added st" "cursect st" "sectname st"]
        by (simp add: seen_inv_def)
    next
      case ne: False
      with Some False r have "st' = st\<lparr>sectname := Some name, cursect := Some (Section name),
          self := (self st)\<lparr>sections := AList.update name [] (sections (self st))\<rparr>,
          elements_added := insert (ESect name) (elements_added st), optname := None\<rparr>"
        by (simp add: header_or_option_def)
      then show ?thesis
        using inv ne False seen_ok_new [of cfg "self st" "elements_added st" "cursect st" "sectname st" name]
        by (simp add: seen_inv_def)
    qed
  qed
next
  case None
  show ?thesis
  proof (cases "cursect st")
    case nocur: None
    with None r have "st' = st\<lparr>cursect := Some (Section fake_header), sectname := Some fake_header,
        self := (self st)\<lparr>sections := AList.update fake_header [] (sections (self st))\<rparr>,
        elements_added := insert (ESect fake_header) (elements_added st), optname := None\<rparr>"
      by (simp add: header_or_option_def)
    then show ?thesis
      using inv nocur seen_ok_fake [of cfg "self st" "elements_added st" "sectname st" fake_header]
      by (simp add: seen_inv_def)
  next
    case (Some cur)
    show ?thesis
    proof (cases "optcre cfg val")
      case nomatch: None
      with None Some r have "st' = st\<lparr>e := handle_error (e st) lineno line\<rparr>"
        by (simp add: header_or_option_def)
      then show ?thesis using inv by (simp add: seen_inv_def)
    next
      case match: (Some m)
      obtain opt optval where m: "m = (opt, optval)" by (cases m)
      let ?name = "optionxform cfg (rstrip opt)"
      let ?ea = "insert (EOpt (sectname st) ?name) (elements_added st)"
      from None Some match m r
      have "self st' = self st \<and> has_key (deref (self st) cur) ?name \<or>
            (\<exists>v. self st' = setitem cur ?name v (self st))"
        and "elements_added st' = ?ea" and "cursect st' = cursect st" and "sectname st' = sectname st"
        by (auto simp: header_or_option_def Let_def split: if_splits option.splits)
      then show ?thesis
        using inv Some seen_ok_setitem [of cfg "self st" "elements_added st" cur "sectname st" ?name]
          seen_ok_dup [of cfg "self st" "elements_added st" cur "sectname st" ?name]
        by (auto simp: seen_inv_def)
    qed
  qed
qed

lemma seen_inv_read_line:
  assumes "seen_inv cfg st" "read_line cfg lineno line st = Inr st'"
  shows "seen_inv cfg st'"
proof (cases "line_value cfg line = []")
  case True
  with assms(2) have "blank_line cfg (comment_start_of cfg line) st = Inr st'"
    by (simp add: read_line_def)
  with assms(1) show ?thesis by (rule seen_inv_blank)
next
  case False
  have i: "seen_inv cfg (st\<lparr>indent_level := cur_indent_level line\<rparr>)"
    using assms(1) by (simp add: seen_inv_def)
  from False assms(2)
  have "(\<exists>cur name. cursect st = Some cur \<and> append_line cur name (line_value cfg line) st = Inr st') \<or>
        header_or_option cfg lineno line (line_value cfg line)
          (st\<lparr>indent_level := cur_indent_level line\<rparr>) = Inr st'"
    by (auto simp: read_line_def split: option.splits if_splits)
  then show ?thesis
    using seen_inv_append [OF assms(1)] seen_inv_header [OF i] by blast
qed

lemma seen_inv_read_lines:
  assumes "seen_inv cfg st" "read_lines cfg lineno fp st = (x, st')"
  shows "seen_inv cfg st'"
  using assms
proof (induction fp arbitrary: st lineno)
  case Nil
  then show ?case by simp
next
  case (Cons line fp)
  show ?case
  proof (cases "read_line cfg lineno line st")
    case (Inl ex)
    with Cons.prems show ?thesis by simp
  next
    case (Inr st1)
    with Cons.prems have "read_lines cfg (Suc lineno) fp st1 = (x, st')" by simp
    moreover have "seen_inv cfg st1"
      using Cons.prems(1) Inr by (rule seen_inv_read_line)
    ultimately show ?thesis by (rule Cons.IH [rotated])
  qed
qed

lemma continuationI:
  "cursect st = Some cur \<Longrightarrow> optname st = Some name \<Longrightarrow> name \<noteq> [] \<Longrightarrow>
   indent_level st < cur_indent_level line \<Longrightarrow> continuation st line"
  by (simp add: continuation_def)

lemma read_line_not_continuation:
  assumes "line_value cfg line \<noteq> []" "\<not> continuation st line"
  shows "read_line cfg lineno line st =
    header_or_option cfg lineno line (line_value cfg line) (st\<lparr>indent_level := cur_indent_level line\<rparr>)"
  using assms by (auto simp: read_line_def continuation_def split: option.splits)

lemma seen_has_key:
  assumes "seen_inv cfg st" "cursect st = Some cur" "EOpt (sectname st) name \<in> elements_added st"
  shows "has_key (deref (self st) cur) name"
proof -
  from assms(1,2) obtain s where s: "sectname st = Some s" "cur = ref_of (self st) s"
    "has_key (sections (self st)) s \<or> s = default_section cfg"
    by (auto simp: seen_inv_def seen_ok_def)
  from assms(1,3) s(1) have "has_key (dict_of cfg (self st) s) name"
    by (auto simp: seen_inv_def seen_ok_def)
  then show ?thesis
    using s deref_ref_of [of "self st" s cfg] by simp
qed

lemma reached_seen_inv:
  assumes "read_lines cfg lineno fp (init p) = (x, st)"
  shows "seen_inv cfg st"
  using seen_inv_init assms by (rule seen_inv_read_lines)

section \<open>The inline-comment scan\<close>



















section \<open>Properties\<close>

subsection \<open>Duplicate options\<close>

text \<open>
  C1. Duplicate-option first-wins. The parser as constructed, given the three lines
  \<^verbatim>\<open>[s]\<close>, \<^verbatim>\<open>a=1\<close>, \<^verbatim>\<open>a=2\<close>, stores \<^verbatim>\<open>1\<close> for option \<^verbatim>\<open>a\<close> of section \<^verbatim>\<open>s\<close> and raises no
  error. And in every non-strict parse, from any parser object and after any lines already
  scanned, an option line whose (section, normalised name) pair is already in
  \<^verbatim>\<open>elements_added\<close> is accepted and leaves both dictionaries of the parser as they were: no
  stored value is overwritten.
\<close>

theorem C1_duplicate_first_wins:
  "read customConfigParser fresh [ln ''[s]'', ln ''a=1'', ln ''a=2''] =
     (None, \<lparr>sections = [(''s'', [(''a'', Str ''1'')])], defaults = []\<rparr>)
   \<and> (\<forall>cfg p fp st lineno line cur opt optval.
        \<not> strict cfg \<and> read_lines cfg 1 fp (init p) = (None, st) \<and>
        line_value cfg line \<noteq> [] \<and> \<not> continuation st line \<and>
        SECTCRE cfg (line_value cfg line) = None \<and> cursect st = Some cur \<and>
        optcre cfg (line_value cfg line) = Some (opt, optval) \<and>
        EOpt (sectname st) (optionxform cfg (rstrip opt)) \<in> elements_added st
        \<longrightarrow> (\<exists>st'. read_line cfg lineno line st = Inr st' \<and> self st' = self st))"
proof (intro conjI allI impI)
  show "read customConfigParser fresh [ln ''[s]'', ln ''a=1'', ln ''a=2''] =
     (None, \<lparr>sections = [(''s'', [(''a'', Str ''1'')])], defaults = []\<rparr>)"
    by code_simp
next
  fix cfg p fp and st :: lstate and lineno line cur opt optval
  assume h: "\<not> strict cfg \<and> read_lines cfg 1 fp (init p) = (None, st) \<and>
        line_value cfg line \<noteq> [] \<and> \<not> continuation st line \<and>
        SECTCRE cfg (line_value cfg line) = None \<and> cursect st = Some cur \<and>
        optcre cfg (line_value cfg line) = Some (opt, optval) \<and>
        EOpt (sectname st) (optionxform cfg (rstrip opt)) \<in> elements_added st"
  let ?st = "st\<lparr>indent_level := cur_indent_level line\<rparr>"
  from h have inv: "seen_inv cfg st" by (blast intro: reached_seen_inv)
  from h have "has_key (deref (self st) cur) (optionxform cfg (rstrip opt))"
    using seen_has_key [OF inv] by blast
  then have "has_key (deref (self ?st) cur) (optionxform cfg (rstrip opt))" by simp
  moreover from h have "cursect ?st = Some cur" by simp
  ultimately have "header_or_option cfg lineno line (line_value cfg line) ?st =
      Inr (?st\<lparr>e := (if opt = [] then handle_error (e ?st) lineno line else e ?st),
            optname := Some (optionxform cfg (rstrip opt)),
            elements_added := insert (EOpt (sectname ?st) (optionxform cfg (rstrip opt)))
                                (elements_added ?st)\<rparr>)"
    using h by (intro dup_option) auto
  moreover from h have "read_line cfg lineno line st =
      header_or_option cfg lineno line (line_value cfg line) ?st"
    by (intro read_line_not_continuation) auto
  ultimately show "\<exists>st'. read_line cfg lineno line st = Inr st' \<and> self st' = self st"
    by simp
qed

theorem C1_duplicate_first_wins_witness:
  "\<exists>st'. read_line customConfigParser 3 (ln ''a=2'')
           \<lparr>self = \<lparr>sections = [(''s'', [(''a'', Lines [''1''])])], defaults = []\<rparr>,
            elements_added = {ESect ''s'', EOpt (Some ''s'') ''a''},
            cursect = Some (Section ''s''), sectname = Some ''s'', optname = Some ''a'',
            indent_level = 0, e = None\<rparr> = Inr st'
         \<and> self st' = \<lparr>sections = [(''s'', [(''a'', Lines [''1''])])], defaults = []\<rparr>"
proof -
  let ?st = "\<lparr>self = \<lparr>sections = [(''s'', [(''a'', Lines [''1''])])], defaults = []\<rparr>,
            elements_added = {ESect ''s'', EOpt (Some ''s'') ''a''},
            cursect = Some (Section ''s''), sectname = Some ''s'', optname = Some ''a'',
            indent_level = 0, e = None\<rparr>"
  have h: "\<not> strict customConfigParser \<and>
      read_lines customConfigParser 1 [ln ''[s]'', ln ''a=1''] (init fresh) = (None, ?st) \<and>
      line_value customConfigParser (ln ''a=2'') \<noteq> [] \<and> \<not> continuation ?st (ln ''a=2'') \<and>
      SECTCRE customConfigParser (line_value customConfigParser (ln ''a=2'')) = None \<and>
      cursect ?st = Some (Section ''s'') \<and>
      optcre customConfigParser (line_value customConfigParser (ln ''a=2'')) = Some (''a'', Some ''2'') \<and>
      EOpt (sectname ?st) (optionxform customConfigParser (rstrip ''a'')) \<in> elements_added ?st"
    by code_simp
  from C1_duplicate_first_wins [THEN conjunct2, rule_format, OF h, of 3]
  show ?thesis by simp
qed

subsection \<open>Malformed lines\<close>

text \<open>
  C2 as stated fails: on the four lines \<^verbatim>\<open>[s]\<close>, \<^verbatim>\<open>!!!bad!!!\<close>, \<^verbatim>\<open>a=1\<close>, \<^verbatim>\<open>???worse???\<close> the
  parser as constructed reports no error at all.
\<close>

theorem C2_counterexample:
  "fst (read customConfigParser fresh
          [ln ''[s]'', ln ''!!!bad!!!'', ln ''a=1'', ln ''???worse???'']) = None"
  by code_simp

text \<open>
  C2, amended. The parser is constructed with \<^verbatim>\<open>allow_no_value=True\<close>, so a line without a
  delimiter is a valueless option: on the four lines above section \<^verbatim>\<open>s\<close> gets \<^verbatim>\<open>a == 1\<close>, the
  two other lines are stored as valueless options and no error is raised. With the option
  pattern that requires the delimiter (\<^verbatim>\<open>allow_no_value=False\<close>, everything else as
  constructed) the same input gives \<^verbatim>\<open>a == 1\<close> and an aggregate error with exactly two
  entries, for lines 2 and 4, in file order.
\<close>

theorem C2_malformed_lines_amended:
  "read customConfigParser fresh
     [ln ''[s]'', ln ''!!!bad!!!'', ln ''a=1'', ln ''???worse???''] =
     (None,
      \<lparr>sections = [(''s'', [(''!!!bad!!!'', NoValue), (''a'', Str ''1''), (''???worse???'', NoValue)])],
       defaults = []\<rparr>)
   \<and> read (customConfigParser\<lparr>optcre := OPT_match [''='']\<rparr>) fresh
       [ln ''[s]'', ln ''!!!bad!!!'', ln ''a=1'', ln ''???worse???''] =
     (Some (ParsingError [(2, ln ''!!!bad!!!''), (4, ln ''???worse???'')]),
      \<lparr>sections = [(''s'', [(''a'', Str ''1'')])], defaults = []\<rparr>)"
  by code_simp

subsection \<open>Exceptions during the scan\<close>

text \<open>
  C3, at the failing input \<^verbatim>\<open>[s]\<close>, \<^verbatim>\<open>a\<close>, \<^verbatim>\<open>  b\<close>, \<^verbatim>\<open>c=1\<close>: the third line is taken as a
  continuation of the valueless option \<^verbatim>\<open>a\<close>, the append fails with \<^verbatim>\<open>AttributeError\<close>, and
  the exception leaves \<^verbatim>\<open>_read\<close> before the fourth line is read (\<^verbatim>\<open>c\<close> is never stored, no
  value is joined).
\<close>

theorem C3_exception_mid_scan:
  "read customConfigParser fresh [ln ''[s]'', ln ''a'', ln ''  b'', ln ''c=1''] =
     (Some AttributeError, \<lparr>sections = [(''s'', [(''a'', NoValue)])], defaults = []\<rparr>)"
  by code_simp

text \<open>
  C9. For the three lines \<^verbatim>\<open>[s]\<close>, \<^verbatim>\<open>a\<close>, \<^verbatim>\<open>  b\<close> the scan fails with an uncaught
  \<^verbatim>\<open>AttributeError\<close> and records no parse error. In general, whenever the open option is
  stored as \<^verbatim>\<open>None\<close> and a non-blank line is indented strictly deeper than the baseline, the
  step appends to that \<^verbatim>\<open>None\<close> and raises \<^verbatim>\<open>AttributeError\<close>.
\<close>

theorem C9_valueless_continuation_raises:
  "read customConfigParser fresh [ln ''[s]'', ln ''a'', ln ''  b''] =
     (Some AttributeError, \<lparr>sections = [(''s'', [(''a'', NoValue)])], defaults = []\<rparr>)
   \<and> (\<forall>cfg lineno line st cur name.
        line_value cfg line \<noteq> [] \<and> cursect st = Some cur \<and> optname st = Some name \<and>
        name \<noteq> [] \<and> indent_level st < cur_indent_level line \<and>
        map_of (deref (self st) cur) name = Some NoValue
        \<longrightarrow> read_line cfg lineno line st = Inl AttributeError)"
proof (intro conjI allI impI)
  show "read customConfigParser fresh [ln ''[s]'', ln ''a'', ln ''  b''] =
     (Some AttributeError, \<lparr>sections = [(''s'', [(''a'', NoValue)])], defaults = []\<rparr>)"
    by code_simp
next
  fix cfg lineno line and st :: lstate and cur name
  assume "line_value cfg line \<noteq> [] \<and> cursect st = Some cur \<and> optname st = Some name \<and>
        name \<noteq> [] \<and> indent_level st < cur_indent_level line \<and>
        map_of (deref (self st) cur) name = Some NoValue"
  then show "read_line cfg lineno line st = Inl AttributeError"
    by (simp add: read_line_continuation append_line_def)
qed

theorem C9_valueless_continuation_raises_witness:
  "read_lines customConfigParser 1 [ln ''[s]'', ln ''a''] (init fresh) =
     (None,
      \<lparr>self = \<lparr>sections = [(''s'', [(''a'', NoValue)])], defaults = []\<rparr>,
       elements_added = {ESect ''s'', EOpt (Some ''s'') ''a''},
       cursect = Some (Section ''s''), sectname = Some ''s'', optname = Some ''a'',
       indent_level = 0, e = None\<rparr>)
   \<and> read_line customConfigParser 3 (ln ''  b'')
       \<lparr>self = \<lparr>sections = [(''s'', [(''a'', NoValue)])], defaults = []\<rparr>,
        elements_added = {ESect ''s'', EOpt (Some ''s'') ''a''},
        cursect = Some (Section ''s''), sectname = Some ''s'', optname = Some ''a'',
        indent_level = 0, e = None\<rparr> = Inl AttributeError"
proof -
  let ?st = "\<lparr>self = \<lparr>sections = [(''s'', [(''a'', NoValue)])], defaults = []\<rparr>,
       elements_added = {ESect ''s'', EOpt (Some ''s'') ''a''},
       cursect = Some (Section ''s''), sectname = Some ''s'', optname = Some ''a'',
       indent_level = 0, e = None\<rparr>"
  have r: "read_lines customConfigParser 1 [ln ''[s]'', ln ''a''] (init fresh) = (None, ?st)"
    by code_simp
  have h: "line_value customConfigParser (ln ''  b'') \<noteq> [] \<and> cursect ?st = Some (Section ''s'') \<and>
      optname ?st = Some ''a'' \<and> ''a'' \<noteq> [] \<and>
      indent_level ?st < cur_indent_level (ln ''  b'') \<and>
      map_of (deref (self ?st) (Section ''s'')) ''a'' = Some NoValue"
    by code_simp
  from r C9_valueless_continuation_raises [THEN conjunct2, rule_format, OF h, of 3]
  show ?thesis by simp
qed

subsection \<open>Inline comments\<close>




text \<open>
  C7 as stated fails: the parser as constructed has neither comment prefixes nor inline
  comment prefixes, so for the two lines \<^verbatim>\<open>[s]\<close>, \<^verbatim>\<open>a=1  # note\<close> the stored value of \<^verbatim>\<open>a\<close> is
  \<^verbatim>\<open>1  # note\<close>.
\<close>

theorem C7_counterexample:
  "read customConfigParser fresh [ln ''[s]'', ln ''a=1  # note''] =
     (None, \<lparr>sections = [(''s'', [(''a'', Str ''1  # note'')])], defaults = []\<rparr>)"
  by code_simp

text \<open>
  C7, amended. For the parser as constructed the value of \<^verbatim>\<open>a\<close> keeps the comment text
  (\<^verbatim>\<open>1  # note\<close>); when \<^verbatim>\<open>#\<close> is configured as an inline comment prefix the comment is
  stripped and the value is \<^verbatim>\<open>1\<close>.
\<close>

theorem C7_comment_kept_amended:
  "map_of (deref (snd (read customConfigParser fresh [ln ''[s]'', ln ''a=1  # note'']))
            (Section ''s'')) ''a'' = Some (Str ''1  # note'')
   \<and> map_of (deref (snd (read (customConfigParser\<lparr>inline_comment_prefixes := [''#'']\<rparr>) fresh
                             [ln ''[s]'', ln ''a=1  # note''])) (Section ''s'')) ''a''
       = Some (Str ''1'')"
  by code_simp

subsection \<open>Continuation lines\<close>

text \<open>
  C5. Multi-line continuation. On the claim's own example, the four lines \<^verbatim>\<open>[s]\<close>, \<^verbatim>\<open>a=1\<close>,
  \<^verbatim>\<open>  2\<close>, \<^verbatim>\<open>  3\<close>, the joined value of \<^verbatim>\<open>s.a\<close> is \<^verbatim>\<open>1\<close>, line feed, \<^verbatim>\<open>2\<close>, line feed, \<^verbatim>\<open>3\<close>.
  But not every non-blank line indented deeper than the open option's baseline is appended:
  on the three lines \<^verbatim>\<open>[s]\<close>, \<^verbatim>\<open>; a comment\<close>, \<^verbatim>\<open>  x=1\<close> the second line is stored as a valueless
  option, the third is taken as its continuation, and the append to \<^verbatim>\<open>None\<close> raises
  \<^verbatim>\<open>AttributeError\<close>: nothing is appended and the scan ends there.
\<close>

theorem C5_multiline_continuation:
  "read customConfigParser fresh [ln ''[s]'', ln ''a=1'', ln ''  2'', ln ''  3''] =
     (None,
      \<lparr>sections = [(''s'', [(''a'', Str (''1'' @ [CHR 0x0A] @ ''2'' @ [CHR 0x0A] @ ''3''))])],
       defaults = []\<rparr>)
   \<and> read customConfigParser fresh [ln ''[s]'', ln ''; a comment'', ln ''  x=1''] =
     (Some AttributeError,
      \<lparr>sections = [(''s'', [(''; a comment'', NoValue)])], defaults = []\<rparr>)"
  by code_simp

text \<open>
  C8. Blank line inside a value. With empty lines allowed in values (as constructed), the
  four lines \<^verbatim>\<open>[s]\<close>, \<^verbatim>\<open>a=1\<close>, an empty line, \<^verbatim>\<open>  2\<close> give the value \<^verbatim>\<open>1\<close>, two line feeds,
  \<^verbatim>\<open>2\<close>. And a line whose content is blank changes the parser's dictionaries only when no
  comment start was found on it, empty lines are allowed in values and the open option holds
  a line sequence; the change is then the empty string appended to that sequence.
\<close>

theorem C8_blank_line_in_value:
  "read customConfigParser fresh [ln ''[s]'', ln ''a=1'', ln [], ln ''  2''] =
     (None,
      \<lparr>sections = [(''s'', [(''a'', Str (''1'' @ [CHR 0x0A, CHR 0x0A] @ ''2''))])],
       defaults = []\<rparr>)
   \<and> (\<forall>cfg lineno line st st'.
        line_value cfg line = [] \<and> read_line cfg lineno line st = Inr st' \<and> self st' \<noteq> self st
        \<longrightarrow> comment_start_of cfg line = None \<and> empty_lines_in_values cfg \<and>
            (\<exists>cur name ls. cursect st = Some cur \<and> optname st = Some name \<and> name \<noteq> [] \<and>
               map_of (deref (self st) cur) name = Some (Lines ls) \<and>
               st' = st\<lparr>self := setitem cur name (Lines (ls @ [[]])) (self st)\<rparr>))"
proof (intro conjI allI impI)
  show "read customConfigParser fresh [ln ''[s]'', ln ''a=1'', ln [], ln ''  2''] =
     (None,
      \<lparr>sections = [(''s'', [(''a'', Str (''1'' @ [CHR 0x0A, CHR 0x0A] @ ''2''))])],
       defaults = []\<rparr>)"
    by code_simp
next
  fix cfg lineno line and st st' :: lstate
  assume h: "line_value cfg line = [] \<and> read_line cfg lineno line st = Inr st' \<and> self st' \<noteq> self st"
  then have b: "blank_line cfg (comment_start_of cfg line) st = Inr st'"
    by (auto simp: read_line_def)
  from blank_line_changes [OF b] h
  show "comment_start_of cfg line = None" and "empty_lines_in_values cfg"
    and "\<exists>cur name ls. cursect st = Some cur \<and> optname st = Some name \<and> name \<noteq> [] \<and>
               map_of (deref (self st) cur) name = Some (Lines ls) \<and>
               st' = st\<lparr>self := setitem cur name (Lines (ls @ [[]])) (self st)\<rparr>"
    by blast+
qed

theorem C8_blank_line_in_value_witness:
  "comment_start_of customConfigParser (ln []) = None \<and> empty_lines_in_values customConfigParser
   \<and> (\<exists>cur name ls.
        cursect \<lparr>self = \<lparr>sections = [(''s'', [(''a'', Lines [''1''])])], defaults = []\<rparr>,
                 elements_added = {ESect ''s'', EOpt (Some ''s'') ''a''},
                 cursect = Some (Section ''s''), sectname = Some ''s'', optname = Some ''a'',
                 indent_level = 0, e = None\<rparr> = Some cur
        \<and> name \<noteq> [] \<and>
        \<lparr>self = \<lparr>sections = [(''s'', [(''a'', Lines [''1'', []])])], defaults = []\<rparr>,
         elements_added = {ESect ''s'', EOpt (Some ''s'') ''a''},
         cursect = Some (Section ''s''), sectname = Some ''s'', optname = Some ''a'',
         indent_level = 0, e = None\<rparr> =
        \<lparr>self = \<lparr>sections = [(''s'', [(''a'', Lines [''1''])])], defaults = []\<rparr>,
         elements_added = {ESect ''s'', EOpt (Some ''s'') ''a''},
         cursect = Some (Section ''s''), sectname = Some ''s'', optname = Some ''a'',
         indent_level = 0, e = None\<rparr>
          \<lparr>self := setitem cur name (Lines (ls @ [[]]))
             \<lparr>sections = [(''s'', [(''a'', Lines [''1''])])], defaults = []\<rparr>\<rparr>)"
proof -
  let ?st = "\<lparr>self = \<lparr>sections = [(''s'', [(''a'', Lines [''1''])])], defaults = []\<rparr>,
      elements_added = {ESect ''s'', EOpt (Some ''s'') ''a''},
      cursect = Some (Section ''s''), sectname = Some ''s'', optname = Some ''a'',
      indent_level = 0, e = None\<rparr>"
  let ?st' = "\<lparr>self = \<lparr>sections = [(''s'', [(''a'', Lines [''1'', []])])], defaults = []\<rparr>,
      elements_added = {ESect ''s'', EOpt (Some ''s'') ''a''},
      cursect = Some (Section ''s''), sectname = Some ''s'', optname = Some ''a'',
      indent_level = 0, e = None\<rparr>"
  have h: "line_value customConfigParser (ln []) = [] \<and>
      read_line customConfigParser 3 (ln []) ?st = Inr ?st' \<and> self ?st' \<noteq> self ?st"
    by code_simp
  from C8_blank_line_in_value [THEN conjunct2, rule_format, OF h]
  show ?thesis by auto
qed

text \<open>
  C10. A duplicate option line still becomes the open option. The four lines \<^verbatim>\<open>[s]\<close>,
  \<^verbatim>\<open>a=1\<close>, \<^verbatim>\<open>a=2\<close>, \<^verbatim>\<open>  3\<close> give the value \<^verbatim>\<open>1\<close>, line feed, \<^verbatim>\<open>3\<close> for \<^verbatim>\<open>s.a\<close>. And in every
  non-strict state, an option line whose normalised name is already stored in the current
  section leaves the dictionaries as they are, yet sets \<^verbatim>\<open>optname\<close> to that name and the
  baseline indent to the line's indent.
\<close>

theorem C10_continuation_after_duplicate:
  "read customConfigParser fresh [ln ''[s]'', ln ''a=1'', ln ''a=2'', ln ''  3''] =
     (None,
      \<lparr>sections = [(''s'', [(''a'', Str (''1'' @ [CHR 0x0A] @ ''3''))])], defaults = []\<rparr>)
   \<and> (\<forall>cfg lineno line st cur opt optval.
        \<not> strict cfg \<and> line_value cfg line \<noteq> [] \<and> \<not> continuation st line \<and>
        SECTCRE cfg (line_value cfg line) = None \<and> cursect st = Some cur \<and>
        optcre cfg (line_value cfg line) = Some (opt, optval) \<and>
        has_key (deref (self st) cur) (optionxform cfg (rstrip opt))
        \<longrightarrow> (\<exists>st'. read_line cfg lineno line st = Inr st' \<and> self st' = self st \<and>
                  cursect st' = Some cur \<and>
                  optname st' = Some (optionxform cfg (rstrip opt)) \<and>
                  indent_level st' = cur_indent_level line))"
proof (intro conjI allI impI)
  show "read customConfigParser fresh [ln ''[s]'', ln ''a=1'', ln ''a=2'', ln ''  3''] =
     (None,
      \<lparr>sections = [(''s'', [(''a'', Str (''1'' @ [CHR 0x0A] @ ''3''))])], defaults = []\<rparr>)"
    by code_simp
next
  fix cfg lineno line and st :: lstate and cur opt optval
  assume h: "\<not> strict cfg \<and> line_value cfg line \<noteq> [] \<and> \<not> continuation st line \<and>
        SECTCRE cfg (line_value cfg line) = None \<and> cursect st = Some cur \<and>
        optcre cfg (line_value cfg line) = Some (opt, optval) \<and>
        has_key (deref (self st) cur) (optionxform cfg (rstrip opt))"
  let ?st = "st\<lparr>indent_level := cur_indent_level line\<rparr>"
  from h have "has_key (deref (self ?st) cur) (optionxform cfg (rstrip opt))"
    and "cursect ?st = Some cur" by simp_all
  then have "header_or_option cfg lineno line (line_value cfg line) ?st =
      Inr (?st\<lparr>e := (if opt = [] then handle_error (e ?st) lineno line else e ?st),
            optname := Some (optionxform cfg (rstrip opt)),
            elements_added := insert (EOpt (sectname ?st) (optionxform cfg (rstrip opt)))
                                (elements_added ?st)\<rparr>)"
    using h by (intro dup_option) auto
  moreover from h have "read_line cfg lineno line st =
      header_or_option cfg lineno line (line_value cfg line) ?st"
    by (intro read_line_not_continuation) auto
  ultimately show "\<exists>st'. read_line cfg lineno line st = Inr st' \<and> self st' = self st \<and>
                  cursect st' = Some cur \<and>
                  optname st' = Some (optionxform cfg (rstrip opt)) \<and>
                  indent_level st' = cur_indent_level line"
    using h by simp
qed

theorem C10_continuation_after_duplicate_witness:
  "\<exists>st'. read_line customConfigParser 3 (ln ''a=2'')
           \<lparr>self = \<lparr>sections = [(''s'', [(''a'', Lines [''1''])])], defaults = []\<rparr>,
            elements_added = {ESect ''s'', EOpt (Some ''s'') ''a''},
            cursect = Some (Section ''s''), sectname = Some ''s'', optname = Some ''a'',
            indent_level = 0, e = None\<rparr> = Inr st'
         \<and> self st' = \<lparr>sections = [(''s'', [(''a'', Lines [''1''])])], defaults = []\<rparr>
         \<and> cursect st' = Some (Section ''s'') \<and> optname st' = Some ''a'' \<and> indent_level st' = 0"
proof -
  let ?st = "\<lparr>self = \<lparr>sections = [(''s'', [(''a'', Lines [''1''])])], defaults = []\<rparr>,
            elements_added = {ESect ''s'', EOpt (Some ''s'') ''a''},
            cursect = Some (Section ''s''), sectname = Some ''s'', optname = Some ''a'',
            indent_level = 0, e = None\<rparr>"
  have h: "\<not> strict customConfigParser \<and>
      line_value customConfigParser (ln ''a=2'') \<noteq> [] \<and> \<not> continuation ?st (ln ''a=2'') \<and>
      SECTCRE customConfigParser (line_value customConfigParser (ln ''a=2'')) = None \<and>
      cursect ?st = Some (Section ''s'') \<and>
      optcre customConfigParser (line_value customConfigParser (ln ''a=2'')) = Some (''a'', Some ''2'') \<and>
      has_key (deref (self ?st) (Section ''s'')) (optionxform customConfigParser (rstrip ''a''))"
    by code_simp
  have n: "optionxform customConfigParser (rstrip ''a'') = ''a''" by code_simp
  have i: "cur_indent_level (ln ''a=2'') = 0" by code_simp
  from C10_continuation_after_duplicate [THEN conjunct2, rule_format, OF h, of 3]
  show ?thesis unfolding n i by simp
qed

subsection \<open>Input without a section header\<close>

text \<open>
  C6 as stated fails twice. On the three lines \<^verbatim>\<open>a=1\<close>, \<^verbatim>\<open>[s]\<close>, \<^verbatim>\<open>b=2\<close> the placeholder
  section is created but stays empty: the line that triggers the recovery is not stored.
  And the placeholder's name is an ordinary section name: on \<^verbatim>\<open>a=1\<close>, \<^verbatim>\<open>b=2\<close>,
  \<^verbatim>\<open>[TotallyFakeSectionHeader]\<close>, \<^verbatim>\<open>c=3\<close> the headerless \<^verbatim>\<open>b\<close> and the user's \<^verbatim>\<open>c\<close> end up in
  the same section.
\<close>

theorem C6_counterexample:
  "read customConfigParser fresh [ln ''a=1'', ln ''[s]'', ln ''b=2''] =
     (None,
      \<lparr>sections = [(''TotallyFakeSectionHeader'', []), (''s'', [(''b'', Str ''2'')])],
       defaults = []\<rparr>)
   \<and> read customConfigParser fresh
       [ln ''a=1'', ln ''b=2'', ln ''[TotallyFakeSectionHeader]'', ln ''c=3''] =
     (None,
      \<lparr>sections = [(''TotallyFakeSectionHeader'', [(''b'', Str ''2''), (''c'', Str ''3'')])],
       defaults = []\<rparr>)"
  by code_simp

text \<open>
  C6, amended. Whenever a non-blank line that is not a section header arrives while no
  section is open, the step does not fail and records no error: it opens a section under the
  fixed name \<^verbatim>\<open>TotallyFakeSectionHeader\<close> and makes it the current one. That name is an
  ordinary string, which the header \<^verbatim>\<open>[TotallyFakeSectionHeader]\<close> also denotes, so headerless
  content is kept apart only from sections of any other name. For the input \<^verbatim>\<open>a=1\<close>, \<^verbatim>\<open>[s]\<close>,
  \<^verbatim>\<open>b=2\<close> parsing succeeds, the placeholder section exists under a name other than \<^verbatim>\<open>s\<close>, and
  \<^verbatim>\<open>s.b == 2\<close>; a headerless option line that follows the first one is stored in the
  placeholder section.
\<close>

theorem C6_headerless_recovery_amended:
  "(\<forall>cfg lineno line st.
      cursect st = None \<and> line_value cfg line \<noteq> [] \<and> SECTCRE cfg (line_value cfg line) = None
      \<longrightarrow> (\<exists>st'. read_line cfg lineno line st = Inr st' \<and>
                cursect st' = Some (Section fake_header) \<and> sectname st' = Some fake_header \<and>
                has_key (sections (self st')) fake_header \<and> e st' = e st))
   \<and> SECTCRE customConfigParser ''[TotallyFakeSectionHeader]'' = Some fake_header
   \<and> fst (read customConfigParser fresh [ln ''a=1'', ln ''[s]'', ln ''b=2'']) = None
   \<and> has_key (sections (snd (read customConfigParser fresh [ln ''a=1'', ln ''[s]'', ln ''b=2'']))) fake_header
   \<and> fake_header \<noteq> ''s''
   \<and> map_of (deref (snd (read customConfigParser fresh [ln ''a=1'', ln ''[s]'', ln ''b=2'']))
               (Section ''s'')) ''b'' = Some (Str ''2'')
   \<and> map_of (deref (snd (read customConfigParser fresh [ln ''a=1'', ln ''b=2'', ln ''[s]'']))
               (Section fake_header)) ''b'' = Some (Str ''2'')"
proof (intro conjI allI impI)
  fix cfg lineno line and st :: lstate
  assume h: "cursect st = None \<and> line_value cfg line \<noteq> [] \<and> SECTCRE cfg (line_value cfg line) = None"
  let ?st = "st\<lparr>indent_level := cur_indent_level line\<rparr>"
  from h have "read_line cfg lineno line st =
      header_or_option cfg lineno line (line_value cfg line) ?st"
    by (intro read_line_new_entry) auto
  moreover from h have "header_or_option cfg lineno line (line_value cfg line) ?st =
     Inr (?st\<lparr>cursect := Some (Section fake_header), sectname := Some fake_header,
             self := (self ?st)\<lparr>sections := AList.update fake_header [] (sections (self ?st))\<rparr>,
             elements_added := insert (ESect fake_header) (elements_added ?st),
             optname := None\<rparr>)"
    by (intro recovery) auto
  ultimately show "\<exists>st'. read_line cfg lineno line st = Inr st' \<and>
                cursect st' = Some (Section fake_header) \<and> sectname st' = Some fake_header \<and>
                has_key (sections (self st')) fake_header \<and> e st' = e st"
    by (simp add: has_key_update)
next
  show "SECTCRE customConfigParser ''[TotallyFakeSectionHeader]'' = Some fake_header"
    by code_simp
  show "fst (read customConfigParser fresh [ln ''a=1'', ln ''[s]'', ln ''b=2'']) = None"
    by code_simp
  show "has_key (sections (snd (read customConfigParser fresh [ln ''a=1'', ln ''[s]'', ln ''b=2'']))) fake_header"
    by code_simp
  show "fake_header \<noteq> ''s''"
    by code_simp
  show "map_of (deref (snd (read customConfigParser fresh [ln ''a=1'', ln ''[s]'', ln ''b=2'']))
               (Section ''s'')) ''b'' = Some (Str ''2'')"
    by code_simp
  show "map_of (deref (snd (read customConfigParser fresh [ln ''a=1'', ln ''b=2'', ln ''[s]'']))
               (Section fake_header)) ''b'' = Some (Str ''2'')"
    by code_simp
qed

theorem C6_headerless_recovery_amended_witness:
  "\<exists>st'. read_line customConfigParser 1 (ln ''a=1'') (init fresh) = Inr st' \<and>
         cursect st' = Some (Section ''TotallyFakeSectionHeader'') \<and>
         sectname st' = Some ''TotallyFakeSectionHeader'' \<and>
         has_key (sections (self st')) ''TotallyFakeSectionHeader'' \<and> e st' = None"
proof -
  have h: "cursect (init fresh) = None \<and> line_value customConfigParser (ln ''a=1'') \<noteq> [] \<and>
      SECTCRE customConfigParser (line_value customConfigParser (ln ''a=1'')) = None"
    by code_simp
  have n: "e (init fresh) = None" by code_simp
  from C6_headerless_recovery_amended [THEN conjunct1, rule_format, OF h, of 1]
  show ?thesis unfolding n fake_header_def by simp
qed

end
